theory Spec2Isabelle
  imports Main "HOL-Library.AList" "HOL-Library.Sublist"
begin

section \<open>Data model of the download cache\<close>

text \<open>
  The development follows \<^verbatim>\<open>conans/client/downloaders/download_cache.py\<close>.

  A sidecar file \<^verbatim>\<open><sha256>.json\<close> holds the JSON object
  \<^verbatim>\<open>{"references": {<ref>: [<url>, ...]}, "timestamp": <time>}\<close>. A file is
  represented by the document it holds: turning JSON text into a document and back
  (\<^verbatim>\<open>json.loads\<close>, \<^verbatim>\<open>json.dumps\<close>, \<^verbatim>\<open>load\<close>, \<^verbatim>\<open>save\<close>) is a primitive of the
  program's libraries. A Python dictionary keeps its keys in insertion order, so
  \<^verbatim>\<open>references\<close> is an association list.
\<close>

record summary =
  references :: "(string \<times> string list) list"
  timestamp :: int

text \<open>
  The \<^verbatim>\<open>conanfile\<close> argument is read through its attribute \<^verbatim>\<open>ref\<close> only:
  \<open>ref\<close> is \<open>Some\<close> of the text \<^verbatim>\<open>str(conanfile.ref)\<close>, and \<open>None\<close> when the object
  has no such attribute (the read raises \<^verbatim>\<open>AttributeError\<close>).
\<close>

record conanfile =
  ref :: "string option"

text \<open>
  The \<^verbatim>\<open>urls\<close> argument is dynamically typed: a list or tuple of URLs, or one URL.
\<close>

datatype urls_arg = Url string | Url_list "string list"

text \<open>What \<^verbatim>\<open>conanfile.output\<close> receives: a verbose line and the dumped document.\<close>

datatype output_msg = Verbose string | Debug_new_summary summary

text \<open>
  The files under the cache folder: \<open>listdir\<close> gives the entry names of a folder in the
  order \<^verbatim>\<open>os.listdir\<close> enumerates them (\<open>None\<close>: the folder does not exist), and
  \<open>json_files\<close> gives the document of a sidecar file by its path (\<open>None\<close>: no such file).
\<close>

record cache_fs =
  listdir :: "string \<rightharpoonup> string list"
  json_files :: "string \<rightharpoonup> summary"

datatype error = ConanException string

text \<open>
  Modelled from the spec: the package list (\<^verbatim>\<open>PackagesList\<close>, whose \<^verbatim>\<open>refs()\<close> is not
  part of this file) supplies, per reference, an "upload" flag and a mapping of
  binary-package identifiers to per-revision "upload" flags. An entry of
  \<^verbatim>\<open>package_list.refs().items()\<close> is the text \<^verbatim>\<open>str(k)\<close> of the reference with its
  dictionary: \<open>upload\<close> is \<^verbatim>\<open>ref.get("upload")\<close> (\<open>None\<close>: key absent), \<open>packages\<close> is
  \<^verbatim>\<open>ref.get("packages")\<close>, and a package is its \<^verbatim>\<open>"revisions"\<close> dictionary, each
  revision with its \<^verbatim>\<open>prev["upload"]\<close> flag.
\<close>

type_synonym package = "(string \<times> bool) list"

record ref_bundle =
  upload :: "bool option"
  packages :: "(string \<times> package) list option"

type_synonym package_list = "(string \<times> ref_bundle) list"

section \<open>String and path primitives\<close>

fun startswith :: "string \<Rightarrow> string \<Rightarrow> bool" where
  "startswith s [] = True"
| "startswith [] (p # ps) = False"
| "startswith (c # s) (p # ps) = (c = p \<and> startswith s ps)"

definition endswith :: "string \<Rightarrow> string \<Rightarrow> bool" where
  "endswith s suff = startswith (rev s) (rev suff)"

text \<open>\<^verbatim>\<open>os.path.join\<close> of two components (POSIX).\<close>

definition os_path_join :: "string \<Rightarrow> string \<Rightarrow> string" where
  "os_path_join a b =
     (if startswith b ''/'' then b
      else if a = [] \<or> endswith a ''/'' then a @ b
      else a @ ''/'' @ b)"

section \<open>\<^verbatim>\<open>update_backup_sources_json\<close>\<close>

text \<open>
  \<^verbatim>\<open>existing_urls.extend(url for url in urls if url not in existing_urls)\<close>: the
  argument is a generator, so each \<^verbatim>\<open>url not in existing_urls\<close> is evaluated when the
  item is requested, against the list as extended so far.
\<close>

fun extend_not_in :: "string list \<Rightarrow> string list \<Rightarrow> string list" where
  "extend_not_in existing_urls [] = existing_urls"
| "extend_not_in existing_urls (url # urls) =
     extend_not_in (if url \<in> set existing_urls then existing_urls
                    else existing_urls @ [url]) urls"

text \<open>\<^verbatim>\<open>d.setdefault(k, v)\<close>: the dictionary afterwards and the value returned.\<close>

definition setdefault ::
  "(string \<times> string list) list \<Rightarrow> string \<Rightarrow> string list
     \<Rightarrow> (string \<times> string list) list \<times> string list" where
  "setdefault d k v =
     (case map_of d k of Some v' \<Rightarrow> (d, v') | None \<Rightarrow> (d @ [(k, v)], v))"

definition summary_key :: "conanfile \<Rightarrow> string" where
  "summary_key conanfile = (case ref conanfile of Some r \<Rightarrow> r | None \<Rightarrow> ''unknown'')"

definition as_list :: "urls_arg \<Rightarrow> string list" where
  "as_list urls = (case urls of Url_list us \<Rightarrow> us | Url u \<Rightarrow> [u])"

text \<open>
  Lines 99 to 102: the document read from \<open>summary_path\<close>, or a fresh one stamped with the
  clock reading \<open>now\<close> that \<^verbatim>\<open>timestamp_now()\<close> returns.
\<close>

definition load_summary :: "(string \<rightharpoonup> summary) \<Rightarrow> string \<Rightarrow> int \<Rightarrow> summary" where
  "load_summary files summary_path now =
     (case files summary_path of
        Some s \<Rightarrow> s
      | None \<Rightarrow> \<lparr>references = [], timestamp = now\<rparr>)"

text \<open>Lines 113 and 114: the list of the key is extended in place.\<close>

definition merge_urls :: "summary \<Rightarrow> string \<Rightarrow> string list \<Rightarrow> summary" where
  "merge_urls summary key urls =
     (let (refs, existing_urls) = setdefault (references summary) key []
      in summary\<lparr>references := AList.update key (extend_not_in existing_urls urls) refs\<rparr>)"

text \<open>
  The function takes the clock reading and the sidecar files by path; it returns the
  files after \<^verbatim>\<open>save\<close> and what \<^verbatim>\<open>conanfile.output\<close> received.
\<close>

definition update_backup_sources_json ::
  "string \<Rightarrow> conanfile \<Rightarrow> urls_arg \<Rightarrow> int \<Rightarrow> (string \<rightharpoonup> summary)
     \<Rightarrow> (string \<rightharpoonup> summary) \<times> output_msg list" where
  "update_backup_sources_json cached_path conanfile urls now files =
     (let summary_path = cached_path @ ''.json'';
          summary = load_summary files summary_path now;
          summary' = merge_urls summary (summary_key conanfile) (as_list urls)
      in (files(summary_path \<mapsto> summary'),
          [Verbose (''Updating $'' @ summary_path @ '' summary file''),
           Debug_new_summary summary']))"

section \<open>\<^verbatim>\<open>get_backup_sources_files_to_upload\<close>\<close>

text \<open>Lines 58 and 59: \<^verbatim>\<open>excluded_urls\<close> may be \<^verbatim>\<open>None\<close>.\<close>

definition excluded_urls_or_empty :: "string list option \<Rightarrow> string list" where
  "excluded_urls_or_empty excluded_urls =
     (case excluded_urls of None \<Rightarrow> [] | Some e \<Rightarrow> e)"

definition has_excluded_urls :: "string list \<Rightarrow> string list \<Rightarrow> bool" where
  "has_excluded_urls excluded_urls backup_urls =
     list_all (\<lambda>url. list_ex (\<lambda>excluded_url. startswith url excluded_url) excluded_urls)
       backup_urls"

definition should_upload_sources :: "package \<Rightarrow> bool" where
  "should_upload_sources package = list_ex (\<lambda>prev. prev) (map snd package)"

text \<open>The loop that fills \<^verbatim>\<open>all_refs\<close> from \<^verbatim>\<open>package_list.refs().items()\<close>.\<close>

fun collect_refs :: "package_list \<Rightarrow> string set \<Rightarrow> string set" where
  "collect_refs [] all_refs = all_refs"
| "collect_refs ((k, r) # items) all_refs =
     collect_refs items
       (if upload r = Some True
           \<or> list_ex should_upload_sources
                (map snd (case packages r of None \<Rightarrow> [] | Some ps \<Rightarrow> ps))
        then insert k all_refs else all_refs)"

text \<open>Lines 69 to 74: \<^verbatim>\<open>all_refs\<close> stays empty when no package list is passed.\<close>

definition all_refs_of :: "package_list option \<Rightarrow> string set" where
  "all_refs_of package_list =
     (case package_list of None \<Rightarrow> {} | Some pl \<Rightarrow> collect_refs pl {})"

text \<open>
  The inner loop over \<^verbatim>\<open>refs.items()\<close>, with its \<^verbatim>\<open>break\<close>: it returns
  \<^verbatim>\<open>files_to_upload\<close> as the loop leaves it.
\<close>

fun refs_loop ::
  "string list \<Rightarrow> package_list option \<Rightarrow> string set \<Rightarrow> string \<Rightarrow> string
     \<Rightarrow> (string \<times> string list) list \<Rightarrow> string list \<Rightarrow> string list" where
  "refs_loop excluded_urls package_list all_refs metadata_path blob_path [] files_to_upload =
     files_to_upload"
| "refs_loop excluded_urls package_list all_refs metadata_path blob_path ((r, urls) # refs)
       files_to_upload =
     (if \<not> has_excluded_urls excluded_urls urls \<and> (package_list = None \<or> r \<in> all_refs)
      then files_to_upload @ [metadata_path, blob_path]
      else refs_loop excluded_urls package_list all_refs metadata_path blob_path refs
             files_to_upload)"

text \<open>The outer loop over \<^verbatim>\<open>os.listdir(path_backups)\<close>; the \<^verbatim>\<open>raise\<close> ends it.\<close>

fun listdir_loop ::
  "cache_fs \<Rightarrow> string list \<Rightarrow> package_list option \<Rightarrow> string set \<Rightarrow> string
     \<Rightarrow> string list \<Rightarrow> string list \<Rightarrow> error + string list" where
  "listdir_loop fs excluded_urls package_list all_refs path_backups [] files_to_upload =
     Inr files_to_upload"
| "listdir_loop fs excluded_urls package_list all_refs path_backups (path # paths)
       files_to_upload =
     (if \<not> endswith path ''.json'' then
        (let blob_path = os_path_join path_backups path;
             metadata_path = blob_path @ ''.json''
         in case json_files fs metadata_path of
              None \<Rightarrow>
                Inl (ConanException (''Missing metadata file for backup source '' @ blob_path))
            | Some metadata \<Rightarrow>
                listdir_loop fs excluded_urls package_list all_refs path_backups paths
                  (refs_loop excluded_urls package_list all_refs metadata_path blob_path
                     (references metadata) files_to_upload))
      else listdir_loop fs excluded_urls package_list all_refs path_backups paths
             files_to_upload)"

text \<open>\<open>cache_path\<close> is the cache folder \<^verbatim>\<open>self._path\<close>.\<close>

definition get_backup_sources_files_to_upload ::
  "string \<Rightarrow> cache_fs \<Rightarrow> string list option \<Rightarrow> package_list option
     \<Rightarrow> error + string list" where
  "get_backup_sources_files_to_upload cache_path fs excluded_urls package_list =
     (let path_backups = os_path_join cache_path ''s'' in
      case listdir fs path_backups of
        None \<Rightarrow> Inr []
      | Some names \<Rightarrow>
          (let excluded_urls' = excluded_urls_or_empty excluded_urls;
               all_refs = all_refs_of package_list
           in listdir_loop fs excluded_urls' package_list all_refs path_backups names []))"

section \<open>Notions used to state the properties\<close>

text \<open>The URLs recorded for a key, as \<^verbatim>\<open>summary["references"].get(key, [])\<close> reads them.\<close>

definition reference_urls :: "summary \<Rightarrow> string \<Rightarrow> string list" where
  "reference_urls summary key =
     (case map_of (references summary) key of Some urls \<Rightarrow> urls | None \<Rightarrow> [])"

text \<open>First-seen order: every element once, at the place of its first occurrence.\<close>

fun first_seen :: "string list \<Rightarrow> string list" where
  "first_seen [] = []"
| "first_seen (x # xs) = x # first_seen (filter (\<lambda>y. y \<noteq> x) xs)"

text \<open>The invariant of a sidecar document: no key lists a URL twice.\<close>

definition no_duplicate_urls :: "summary \<Rightarrow> bool" where
  "no_duplicate_urls summary = list_all (\<lambda>(key, urls). distinct urls) (references summary)"

text \<open>
  \<open>allExcluded\<close>: every URL of the list starts with at least one of the excluded prefixes.
\<close>

definition all_excluded :: "string list \<Rightarrow> string list \<Rightarrow> bool" where
  "all_excluded excluded urls = (\<forall>url \<in> set urls. \<exists>p \<in> set excluded. prefix p url)"

text \<open>
  A reference of the package list is eligible when it is itself marked for upload, or
  when some binary package of it has some recorded revision marked for upload; the
  eligible keys are the texts of the eligible references.
\<close>

definition marked_for_upload :: "ref_bundle \<Rightarrow> bool" where
  "marked_for_upload r =
     (upload r = Some True
      \<or> (case packages r of
            None \<Rightarrow> False
          | Some ps \<Rightarrow>
              \<exists>(package_id, revisions) \<in> set ps. \<exists>(prev, marked) \<in> set revisions. marked))"

definition eligible_keys :: "package_list \<Rightarrow> string set" where
  "eligible_keys pl = fst ` {item \<in> set pl. marked_for_upload (snd item)}"

text \<open>The blobs of a folder listing: the names that do not end in \<^verbatim>\<open>.json\<close>.\<close>

definition blob_names :: "string list \<Rightarrow> string list" where
  "blob_names names = filter (\<lambda>name. \<not> suffix ''.json'' name) names"

text \<open>
  What one blob adds to the result: its sidecar path and its own path, once, when some
  key of its sidecar qualifies, and nothing otherwise.
\<close>

definition upload_pair ::
  "cache_fs \<Rightarrow> string \<Rightarrow> (string \<times> string list \<Rightarrow> bool) \<Rightarrow> string \<Rightarrow> string list" where
  "upload_pair fs path_backups qualifies name =
     (case json_files fs (os_path_join path_backups name @ ''.json'') of
        None \<Rightarrow> []
      | Some metadata \<Rightarrow>
          if \<exists>item \<in> set (references metadata). qualifies item
          then [os_path_join path_backups name @ ''.json'', os_path_join path_backups name]
          else [])"

text \<open>
  A cache folder \<^verbatim>\<open>/c\<close> used to run the selector: two blobs with their sidecars and a
  sidecar without blob; and a package list in which \<^verbatim>\<open>pkg/1.0\<close> has a binary revision
  marked for upload and \<^verbatim>\<open>zlib/1.3\<close> has nothing marked.
\<close>

definition example_fs :: cache_fs where
  "example_fs =
     \<lparr>listdir = [''/c/s'' \<mapsto> [''f00'', ''f00.json'', ''orphan.json'', ''f01.json'', ''f01'']],
      json_files =
        [''/c/s/f00.json'' \<mapsto>
           \<lparr>references = [(''unknown'', [''http://y/b'']), (''pkg/1.0'', [''http://x/a''])],
            timestamp = 5\<rparr>,
         ''/c/s/f01.json'' \<mapsto>
           \<lparr>references = [(''unknown'', [''http://y/b''])], timestamp = 6\<rparr>,
         ''/c/s/orphan.json'' \<mapsto>
           \<lparr>references = [(''pkg/1.0'', [''http://x/c''])], timestamp = 7\<rparr>]\<rparr>"

definition example_package_list :: package_list where
  "example_package_list =
     [(''pkg/1.0'',
       \<lparr>upload = None, packages = Some [(''pid1'', [(''prev1'', False), (''prev2'', True)])]\<rparr>),
      (''zlib/1.3'', \<lparr>upload = Some False, packages = None\<rparr>)]"


section \<open>Merging URLs into a sidecar\<close>

lemma set_extend_not_in: "set (extend_not_in e us) = set e \<union> set us"
  by (induction us arbitrary: e) auto

lemma extend_not_in_present: "set us \<subseteq> set e \<Longrightarrow> extend_not_in e us = e"
  by (induction us arbitrary: e) auto

lemma distinct_extend_not_in: "distinct e \<Longrightarrow> distinct (extend_not_in e us)"
  by (induction us arbitrary: e) auto

lemma extend_not_in_first_seen:
  "extend_not_in e us = e @ first_seen (filter (\<lambda>u. u \<notin> set e) us)"
proof (induction us arbitrary: e)
  case Nil
  then show ?case by simp
next
  case (Cons u us)
  show ?case
  proof (cases "u \<in> set e")
    case True
    then show ?thesis using Cons.IH [of e] by simp
  next
    case False
    have "filter (\<lambda>y. y \<noteq> u) (filter (\<lambda>x. x \<notin> set e) us) = filter (\<lambda>x. x \<notin> set (e @ [u])) us"
      by (auto simp: filter_filter intro: filter_cong)
    then show ?thesis using False Cons.IH [of "e @ [u]"] by simp
  qed
qed

lemma update_absent: "map_of d k = None \<Longrightarrow> AList.update k v (d @ [(k, w)]) = AList.update k v d"
  by (induction d) (auto split: if_splits)

lemma references_merge_urls:
  "references (merge_urls s k us) =
     AList.update k (extend_not_in (reference_urls s k) us) (references s)"
  by (auto simp: merge_urls_def setdefault_def reference_urls_def update_absent
           split: option.splits)

lemma timestamp_merge_urls: "timestamp (merge_urls s k us) = timestamp s"
  by (simp add: merge_urls_def case_prod_beta)

lemma reference_urls_merge_urls:
  "reference_urls (merge_urls s k us) k' =
     (if k' = k then extend_not_in (reference_urls s k) us else reference_urls s k')"
  by (simp add: references_merge_urls reference_urls_def update_conv')

lemma merge_urls_idem: "merge_urls (merge_urls s k us) k us = merge_urls s k us"
proof -
  have *: "extend_not_in (extend_not_in (reference_urls s k) us) us = extend_not_in (reference_urls s k) us"
    by (rule extend_not_in_present) (simp add: set_extend_not_in)
  have "references (merge_urls (merge_urls s k us) k us) = references (merge_urls s k us)"
    by (simp add: references_merge_urls reference_urls_merge_urls * )
  then show ?thesis
    by (simp add: merge_urls_def case_prod_beta)
qed

lemma files_update:
  "fst (update_backup_sources_json p cf urls now files) =
     files(p @ ''.json'' \<mapsto>
       merge_urls (load_summary files (p @ ''.json'') now) (summary_key cf) (as_list urls))"
  by (simp add: update_backup_sources_json_def Let_def)

lemma sidecar_update:
  "fst (update_backup_sources_json p cf urls now files) (p @ ''.json'') =
     Some (merge_urls (load_summary files (p @ ''.json'') now) (summary_key cf) (as_list urls))"
  by (simp add: files_update)

lemma set_update_subset: "set (AList.update k v al) \<subseteq> insert (k, v) (set al)"
  by (induction al) auto

lemma distinct_reference_urls: "no_duplicate_urls s \<Longrightarrow> distinct (reference_urls s k)"
  by (auto simp: no_duplicate_urls_def reference_urls_def list_all_iff
           split: option.splits dest!: map_of_SomeD)

lemma no_duplicate_urls_merge_urls:
  assumes "no_duplicate_urls s"
  shows "no_duplicate_urls (merge_urls s k us)"
proof -
  have "distinct (extend_not_in (reference_urls s k) us)"
    using assms by (simp add: distinct_reference_urls distinct_extend_not_in)
  then show ?thesis
    using assms set_update_subset [of k "extend_not_in (reference_urls s k) us" "references s"]
    by (auto simp: no_duplicate_urls_def list_all_iff references_merge_urls)
qed

lemma no_duplicate_urls_load_summary:
  "(\<And>s. files p = Some s \<Longrightarrow> no_duplicate_urls s) \<Longrightarrow> no_duplicate_urls (load_summary files p now)"
  by (auto simp: load_summary_def no_duplicate_urls_def split: option.splits)

lemma timestamp_load_summary:
  "timestamp (load_summary files p now) = (case files p of Some s \<Rightarrow> timestamp s | None \<Rightarrow> now)"
  by (simp add: load_summary_def split: option.splits)

lemma urls_stored:
  "\<exists>summary'.
     fst (update_backup_sources_json p cf urls now files) (p @ ''.json'') = Some summary'
     \<and> summary_key cf \<in> set (map fst (references summary'))
     \<and> set (as_list urls) \<subseteq> set (reference_urls summary' (summary_key cf))"
  by (simp add: sidecar_update reference_urls_merge_urls set_extend_not_in
        references_merge_urls dom_update)

section \<open>Properties of \<^verbatim>\<open>update_backup_sources_json\<close>\<close>

text \<open>
  Claim C1. \<^verbatim>\<open>update_backup_sources_json\<close> is idempotent: a second call with the same
  blob path, conanfile and urls leaves every sidecar file as the first call left it, and
  so does any further number of calls, whatever the clock reads at each of them. The URL
  list of the key does not grow, and the timestamp is the one of the first call too,
  since a later call reads it back from the file.
\<close>

theorem update_backup_sources_json_idempotent:
  "fst (update_backup_sources_json cached_path conanfile urls now'
          (fst (update_backup_sources_json cached_path conanfile urls now files)))
     = fst (update_backup_sources_json cached_path conanfile urls now files)
   \<and> fold (\<lambda>t fs. fst (update_backup_sources_json cached_path conanfile urls t fs)) nows
         (fst (update_backup_sources_json cached_path conanfile urls now files))
     = fst (update_backup_sources_json cached_path conanfile urls now files)"
proof
  show once: "fst (update_backup_sources_json cached_path conanfile urls t
          (fst (update_backup_sources_json cached_path conanfile urls now files)))
     = fst (update_backup_sources_json cached_path conanfile urls now files)" for t
    by (simp add: files_update load_summary_def merge_urls_idem)
  show "fold (\<lambda>t fs. fst (update_backup_sources_json cached_path conanfile urls t fs)) nows
         (fst (update_backup_sources_json cached_path conanfile urls now files))
     = fst (update_backup_sources_json cached_path conanfile urls now files)"
    by (induction nows) (simp_all add: once)
qed

theorem update_backup_sources_json_idempotent_witness:
  "fst (update_backup_sources_json ''/c/s/f00'' \<lparr>ref = Some ''pkg/1.0''\<rparr>
          (Url_list [''http://x/a'', ''http://y/a'', ''http://x/a'']) 8
          (fst (update_backup_sources_json ''/c/s/f00'' \<lparr>ref = Some ''pkg/1.0''\<rparr>
                  (Url_list [''http://x/a'', ''http://y/a'', ''http://x/a'']) 5 Map.empty)))
     ''/c/s/f00.json''
   = Some \<lparr>references = [(''pkg/1.0'', [''http://x/a'', ''http://y/a''])], timestamp = 5\<rparr>"
  using update_backup_sources_json_idempotent
          [of "''/c/s/f00''" "\<lparr>ref = Some ''pkg/1.0''\<rparr>"
              "Url_list [''http://x/a'', ''http://y/a'', ''http://x/a'']" 8 5 Map.empty "[]"]
  by (simp add: update_backup_sources_json_def load_summary_def merge_urls_def setdefault_def
        summary_key_def as_list_def Let_def)


text \<open>
  Claim C2. After a call, the URL list of the resolved key is the list it had before,
  unchanged and in front, followed by the input URLs that were not in it, each once, in
  the order of their first occurrence in the input. Starting from a sidecar without URLs
  for the key, the urls \<^verbatim>\<open>["a","b"]\<close> and then \<^verbatim>\<open>["b","c"]\<close> give \<^verbatim>\<open>["a","b","c"]\<close>.
\<close>

theorem update_backup_sources_json_merge:
  "(\<exists>summary'.
      fst (update_backup_sources_json cached_path conanfile urls now files)
        (cached_path @ ''.json'') = Some summary'
      \<and> reference_urls summary' (summary_key conanfile) =
          reference_urls (load_summary files (cached_path @ ''.json'') now) (summary_key conanfile)
          @ first_seen
              (filter (\<lambda>url. url \<notin> set (reference_urls
                                 (load_summary files (cached_path @ ''.json'') now)
                                 (summary_key conanfile)))
                 (as_list urls)))
   \<and> (reference_urls (load_summary files (cached_path @ ''.json'') now)
          (summary_key conanfile) = [] \<longrightarrow>
        (\<exists>summary''.
           fst (update_backup_sources_json cached_path conanfile (Url_list [''b'', ''c'']) now'
                  (fst (update_backup_sources_json cached_path conanfile
                          (Url_list [''a'', ''b'']) now files)))
             (cached_path @ ''.json'') = Some summary''
           \<and> reference_urls summary'' (summary_key conanfile) = [''a'', ''b'', ''c'']))"
proof (intro conjI impI)
  show "\<exists>summary'.
      fst (update_backup_sources_json cached_path conanfile urls now files)
        (cached_path @ ''.json'') = Some summary'
      \<and> reference_urls summary' (summary_key conanfile) =
          reference_urls (load_summary files (cached_path @ ''.json'') now) (summary_key conanfile)
          @ first_seen
              (filter (\<lambda>url. url \<notin> set (reference_urls
                                 (load_summary files (cached_path @ ''.json'') now)
                                 (summary_key conanfile)))
                 (as_list urls))"
    by (simp add: sidecar_update reference_urls_merge_urls extend_not_in_first_seen)
next
  assume empty: "reference_urls (load_summary files (cached_path @ ''.json'') now)
          (summary_key conanfile) = []"
  show "\<exists>summary''.
           fst (update_backup_sources_json cached_path conanfile (Url_list [''b'', ''c'']) now'
                  (fst (update_backup_sources_json cached_path conanfile
                          (Url_list [''a'', ''b'']) now files)))
             (cached_path @ ''.json'') = Some summary''
           \<and> reference_urls summary'' (summary_key conanfile) = [''a'', ''b'', ''c'']"
    by (simp add: sidecar_update files_update load_summary_def [of "_(_ \<mapsto> _)"]
          reference_urls_merge_urls empty as_list_def)
qed

theorem update_backup_sources_json_merge_witness:
  "reference_urls (load_summary Map.empty (''/c/s/f00'' @ ''.json'') 5)
      (summary_key \<lparr>ref = Some ''pkg/1.0''\<rparr>) = []
   \<and> fst (update_backup_sources_json ''/c/s/f00'' \<lparr>ref = Some ''pkg/1.0''\<rparr>
            (Url_list [''b'', ''c'']) 8
            (fst (update_backup_sources_json ''/c/s/f00'' \<lparr>ref = Some ''pkg/1.0''\<rparr>
                    (Url_list [''a'', ''b'']) 5 Map.empty)))
       ''/c/s/f00.json''
     = Some \<lparr>references = [(''pkg/1.0'', [''a'', ''b'', ''c''])], timestamp = 5\<rparr>"
  using update_backup_sources_json_merge
          [of "''/c/s/f00''" "\<lparr>ref = Some ''pkg/1.0''\<rparr>" "Url_list [''a'', ''b'']" 5 Map.empty 8]
  by (simp add: update_backup_sources_json_def load_summary_def merge_urls_def setdefault_def
        summary_key_def as_list_def reference_urls_def Let_def)



text \<open>
  Claim C7. The sidecar key is the text of \<^verbatim>\<open>conanfile.ref\<close> when the conanfile has that
  attribute and the sentinel \<^verbatim>\<open>"unknown"\<close> when it has not. In both cases the call
  returns normally and the document written has the key, with every supplied URL in
  its list.
\<close>

theorem update_backup_sources_json_key:
  "(ref conanfile = Some r \<longrightarrow>
      summary_key conanfile = r
      \<and> (\<exists>summary'.
            fst (update_backup_sources_json cached_path conanfile urls now files)
              (cached_path @ ''.json'') = Some summary'
            \<and> r \<in> set (map fst (references summary'))
            \<and> set (as_list urls) \<subseteq> set (reference_urls summary' r)))
   \<and> (ref conanfile = None \<longrightarrow>
      summary_key conanfile = ''unknown''
      \<and> (\<exists>summary'.
            fst (update_backup_sources_json cached_path conanfile urls now files)
              (cached_path @ ''.json'') = Some summary'
            \<and> ''unknown'' \<in> set (map fst (references summary'))
            \<and> set (as_list urls) \<subseteq> set (reference_urls summary' ''unknown'')))"
proof (intro conjI impI)
  assume "ref conanfile = Some r"
  then show key: "summary_key conanfile = r"
    by (simp add: summary_key_def)
  show "\<exists>summary'.
            fst (update_backup_sources_json cached_path conanfile urls now files)
              (cached_path @ ''.json'') = Some summary'
            \<and> r \<in> set (map fst (references summary'))
            \<and> set (as_list urls) \<subseteq> set (reference_urls summary' r)"
    using urls_stored [of cached_path conanfile urls now files] key by simp
next
  assume "ref conanfile = None"
  then show key: "summary_key conanfile = ''unknown''"
    by (simp add: summary_key_def)
  show "\<exists>summary'.
            fst (update_backup_sources_json cached_path conanfile urls now files)
              (cached_path @ ''.json'') = Some summary'
            \<and> ''unknown'' \<in> set (map fst (references summary'))
            \<and> set (as_list urls) \<subseteq> set (reference_urls summary' ''unknown'')"
    using urls_stored [of cached_path conanfile urls now files] key by simp
qed

theorem update_backup_sources_json_key_witness:
  "ref \<lparr>ref = None\<rparr> = None
   \<and> summary_key \<lparr>ref = None\<rparr> = ''unknown''
   \<and> fst (update_backup_sources_json ''/c/s/f00'' \<lparr>ref = None\<rparr> (Url ''http://x/a'') 5 Map.empty)
       ''/c/s/f00.json''
     = Some \<lparr>references = [(''unknown'', [''http://x/a''])], timestamp = 5\<rparr>
   \<and> ref \<lparr>ref = Some ''pkg/1.0''\<rparr> = Some ''pkg/1.0''
   \<and> summary_key \<lparr>ref = Some ''pkg/1.0''\<rparr> = ''pkg/1.0''
   \<and> fst (update_backup_sources_json ''/c/s/f00'' \<lparr>ref = Some ''pkg/1.0''\<rparr>
            (Url ''http://x/a'') 5 Map.empty)
       ''/c/s/f00.json''
     = Some \<lparr>references = [(''pkg/1.0'', [''http://x/a''])], timestamp = 5\<rparr>"
  using update_backup_sources_json_key
          [of "\<lparr>ref = None\<rparr>" "''pkg/1.0''" "''/c/s/f00''" "Url ''http://x/a''" 5 Map.empty]
        update_backup_sources_json_key
          [of "\<lparr>ref = Some ''pkg/1.0''\<rparr>" "''pkg/1.0''" "''/c/s/f00''" "Url ''http://x/a''" 5
              Map.empty]
  by (simp add: update_backup_sources_json_def load_summary_def merge_urls_def setdefault_def
        summary_key_def as_list_def Let_def)

text \<open>
  Claim C8. A call preserves the invariant of the sidecar document: when no key of the
  document read lists a URL twice (a fresh document lists nothing), no key of the document
  written does, also when the input itself repeats URLs; the list of the key is the old
  list followed by the new URLs in first-seen order; and the timestamp written is the one
  read, the clock being used for a document that did not exist.
\<close>

theorem update_backup_sources_json_invariant:
  assumes "\<And>summary. files (cached_path @ ''.json'') = Some summary \<Longrightarrow> no_duplicate_urls summary"
  shows "\<exists>summary'.
           fst (update_backup_sources_json cached_path conanfile urls now files)
             (cached_path @ ''.json'') = Some summary'
           \<and> no_duplicate_urls summary'
           \<and> reference_urls summary' (summary_key conanfile) =
               reference_urls (load_summary files (cached_path @ ''.json'') now)
                 (summary_key conanfile)
               @ first_seen
                   (filter (\<lambda>url. url \<notin> set (reference_urls
                                      (load_summary files (cached_path @ ''.json'') now)
                                      (summary_key conanfile)))
                      (as_list urls))
           \<and> timestamp summary' =
               (case files (cached_path @ ''.json'') of
                  Some summary \<Rightarrow> timestamp summary
                | None \<Rightarrow> now)"
  using assms
  by (simp add: sidecar_update no_duplicate_urls_merge_urls no_duplicate_urls_load_summary
        reference_urls_merge_urls extend_not_in_first_seen timestamp_merge_urls
        timestamp_load_summary)

theorem update_backup_sources_json_invariant_witness:
  "no_duplicate_urls \<lparr>references = [(''pkg/1.0'', [''http://x/a''])], timestamp = 5\<rparr>
   \<and> fst (update_backup_sources_json ''/c/s/f00'' \<lparr>ref = Some ''pkg/1.0''\<rparr>
            (Url_list [''http://y/a'', ''http://x/a'', ''http://y/a'']) 8
            [''/c/s/f00.json'' \<mapsto>
               \<lparr>references = [(''pkg/1.0'', [''http://x/a''])], timestamp = 5\<rparr>])
       ''/c/s/f00.json''
     = Some \<lparr>references = [(''pkg/1.0'', [''http://x/a'', ''http://y/a''])], timestamp = 5\<rparr>
   \<and> no_duplicate_urls
         \<lparr>references = [(''pkg/1.0'', [''http://x/a'', ''http://y/a''])], timestamp = 5\<rparr>"
  using update_backup_sources_json_invariant
          [of "[''/c/s/f00.json'' \<mapsto>
                 \<lparr>references = [(''pkg/1.0'', [''http://x/a''])], timestamp = 5\<rparr>]"
              "''/c/s/f00''" "\<lparr>ref = Some ''pkg/1.0''\<rparr>"
              "Url_list [''http://y/a'', ''http://x/a'', ''http://y/a'']" 8]
  by (simp add: update_backup_sources_json_def load_summary_def merge_urls_def setdefault_def
        summary_key_def as_list_def reference_urls_def no_duplicate_urls_def Let_def)

text \<open>
  Claim C10. A call on an existing sidecar changes the URL list of the resolved key only:
  every other key keeps its list, the keys keep their order and grow by at most the
  resolved key (added last), the timestamp is kept, and no other file changes.
\<close>

theorem update_backup_sources_json_frame:
  assumes "files (cached_path @ ''.json'') = Some summary"
  shows "\<exists>summary'.
           fst (update_backup_sources_json cached_path conanfile urls now files)
             (cached_path @ ''.json'') = Some summary'
           \<and> (\<forall>key. key \<noteq> summary_key conanfile \<longrightarrow>
                 map_of (references summary') key = map_of (references summary) key)
           \<and> map fst (references summary') =
               (if summary_key conanfile \<in> set (map fst (references summary))
                then map fst (references summary)
                else map fst (references summary) @ [summary_key conanfile])
           \<and> timestamp summary' = timestamp summary
           \<and> (\<forall>p. p \<noteq> cached_path @ ''.json'' \<longrightarrow>
                 fst (update_backup_sources_json cached_path conanfile urls now files) p = files p)"
  using assms
  by (simp add: files_update load_summary_def references_merge_urls update_conv' update_keys
        timestamp_merge_urls)

theorem update_backup_sources_json_frame_witness:
  "fst (update_backup_sources_json ''/c/s/f00'' \<lparr>ref = Some ''pkg/1.0''\<rparr>
            (Url_list [''http://y/a'']) 8
            [''/c/s/f00.json'' \<mapsto>
               \<lparr>references = [(''zlib/1.3'', [''http://x/a'']), (''unknown'', [])],
                timestamp = 5\<rparr>])
       ''/c/s/f00.json''
     = Some \<lparr>references = [(''zlib/1.3'', [''http://x/a'']), (''unknown'', []),
                             (''pkg/1.0'', [''http://y/a''])], timestamp = 5\<rparr>"
  using update_backup_sources_json_frame
          [of "[''/c/s/f00.json'' \<mapsto>
                 \<lparr>references = [(''zlib/1.3'', [''http://x/a'']), (''unknown'', [])],
                  timestamp = 5\<rparr>]"
              "''/c/s/f00''"
              "\<lparr>references = [(''zlib/1.3'', [''http://x/a'']), (''unknown'', [])],
                  timestamp = 5\<rparr>"
              "\<lparr>ref = Some ''pkg/1.0''\<rparr>" "Url_list [''http://y/a'']" 8]
  by (simp add: update_backup_sources_json_def load_summary_def merge_urls_def setdefault_def
        summary_key_def as_list_def Let_def)



section \<open>Selecting the files to upload\<close>

lemma startswith_prefix: "startswith s p = prefix p s"
  by (induction s p rule: startswith.induct) auto

lemma endswith_suffix: "endswith s x = suffix x s"
  by (simp add: endswith_def startswith_prefix suffix_to_prefix)

lemma has_excluded_urls_all_excluded: "has_excluded_urls ex urls = all_excluded ex urls"
  by (simp add: has_excluded_urls_def all_excluded_def list_all_iff list_ex_iff startswith_prefix)

lemma should_upload_sources_iff:
  "should_upload_sources p = (\<exists>(prev, marked) \<in> set p. marked)"
  by (simp add: should_upload_sources_def list_ex_iff case_prod_beta)

lemma collect_refs_eq: "collect_refs pl acc = acc \<union> eligible_keys pl"
proof (induction pl arbitrary: acc)
  case Nil
  then show ?case by (simp add: eligible_keys_def)
next
  case (Cons item pl)
  obtain k r where item: "item = (k, r)" by (cases item)
  have step: "(upload r = Some True
           \<or> list_ex should_upload_sources
                (map snd (case packages r of None \<Rightarrow> [] | Some ps \<Rightarrow> ps))) = marked_for_upload r"
    by (auto simp: marked_for_upload_def list_ex_iff should_upload_sources_iff split: option.splits)
  have keys: "eligible_keys ((k, r) # pl) = (if marked_for_upload r then insert k (eligible_keys pl) else eligible_keys pl)"
    by (force simp: eligible_keys_def)
  show ?case
    unfolding item collect_refs.simps step Cons.IH keys by auto
qed

lemma all_refs_of_Some: "all_refs_of (Some pl) = eligible_keys pl"
  by (simp add: all_refs_of_def collect_refs_eq)

lemma refs_loop_eq:
  "refs_loop ex pl A m b refs acc =
     acc @ (if \<exists>(key, urls) \<in> set refs. \<not> has_excluded_urls ex urls \<and> (pl = None \<or> key \<in> A)
            then [m, b] else [])"
proof (induction refs)
  case Nil
  then show ?case by simp
next
  case (Cons item refs)
  obtain key urls where item: "item = (key, urls)" by (cases item)
  show ?case
  proof (cases "\<not> has_excluded_urls ex urls \<and> (pl = None \<or> key \<in> A)")
    case True
    then show ?thesis unfolding item by auto
  next
    case False
    then show ?thesis unfolding item using Cons.IH by auto
  qed
qed

lemma listdir_loop_eq:
  assumes "\<forall>name \<in> set names. \<not> suffix ''.json'' name \<longrightarrow>
             json_files fs (os_path_join pb name @ ''.json'') \<noteq> None"
  shows "listdir_loop fs ex pl A pb names acc =
           Inr (acc @ concat (map (upload_pair fs pb
                  (\<lambda>(key, urls). \<not> has_excluded_urls ex urls \<and> (pl = None \<or> key \<in> A)))
                  (blob_names names)))"
  using assms
  by (induction names arbitrary: acc)
     (auto simp: blob_names_def endswith_suffix upload_pair_def refs_loop_eq Let_def)


lemma get_backup_sources_files_to_upload_eq:
  assumes "listdir fs (os_path_join cache_path ''s'') = Some names"
      and "\<forall>name \<in> set (blob_names names).
             json_files fs (os_path_join (os_path_join cache_path ''s'') name @ ''.json'') \<noteq> None"
  shows "get_backup_sources_files_to_upload cache_path fs excluded_urls package_list =
           Inr (concat (map (upload_pair fs (os_path_join cache_path ''s'')
                  (\<lambda>(key, urls). \<not> has_excluded_urls (excluded_urls_or_empty excluded_urls) urls
                                   \<and> (package_list = None \<or> key \<in> all_refs_of package_list)))
                  (blob_names names)))"
proof -
  have "\<forall>name \<in> set names. \<not> suffix ''.json'' name \<longrightarrow>
          json_files fs (os_path_join (os_path_join cache_path ''s'') name @ ''.json'') \<noteq> None"
    using assms(2) by (simp add: blob_names_def)
  then show ?thesis
    using assms(1)
    by (simp add: get_backup_sources_files_to_upload_def Let_def listdir_loop_eq)
qed

lemma listdir_loop_missing:
  assumes "name \<in> set names" and "\<not> suffix ''.json'' name"
      and "json_files fs (os_path_join pb name @ ''.json'') = None"
  shows "\<exists>before missing after.
           names = before @ missing # after
           \<and> \<not> suffix ''.json'' missing
           \<and> json_files fs (os_path_join pb missing @ ''.json'') = None
           \<and> (\<forall>n \<in> set (blob_names before). json_files fs (os_path_join pb n @ ''.json'') \<noteq> None)
           \<and> listdir_loop fs ex pl A pb names acc =
               Inl (ConanException (''Missing metadata file for backup source ''
                                     @ os_path_join pb missing))"
  using assms(1)
proof (induction names arbitrary: acc)
  case Nil
  then show ?case by simp
next
  case (Cons n ns)
  show ?case
  proof (cases "\<not> suffix ''.json'' n \<and> json_files fs (os_path_join pb n @ ''.json'') = None")
    case True
    then have "listdir_loop fs ex pl A pb (n # ns) acc =
               Inl (ConanException (''Missing metadata file for backup source ''
                                     @ os_path_join pb n))"
      by (simp add: endswith_suffix Let_def)
    with True have "n # ns = [] @ n # ns
           \<and> \<not> suffix ''.json'' n
           \<and> json_files fs (os_path_join pb n @ ''.json'') = None
           \<and> (\<forall>m \<in> set (blob_names []). json_files fs (os_path_join pb m @ ''.json'') \<noteq> None)
           \<and> listdir_loop fs ex pl A pb (n # ns) acc =
               Inl (ConanException (''Missing metadata file for backup source ''
                                     @ os_path_join pb n))"
      by (simp add: blob_names_def)
    then show ?thesis by blast
  next
    case False
    with Cons.prems assms(2,3) have "name \<in> set ns" by auto
    have "\<exists>acc'. listdir_loop fs ex pl A pb (n # ns) acc = listdir_loop fs ex pl A pb ns acc'"
    proof (cases "suffix ''.json'' n")
      case True
      then have "listdir_loop fs ex pl A pb (n # ns) acc = listdir_loop fs ex pl A pb ns acc"
        by (simp add: endswith_suffix)
      then show ?thesis by blast
    next
      case blob: False
      with False obtain metadata where "json_files fs (os_path_join pb n @ ''.json'') = Some metadata"
        by auto
      with blob have "listdir_loop fs ex pl A pb (n # ns) acc =
          listdir_loop fs ex pl A pb ns
            (refs_loop ex pl A (os_path_join pb n @ ''.json'') (os_path_join pb n)
               (references metadata) acc)"
        by (simp add: endswith_suffix Let_def)
      then show ?thesis by blast
    qed
    then obtain acc' where
      step: "listdir_loop fs ex pl A pb (n # ns) acc = listdir_loop fs ex pl A pb ns acc'"
      by blast
    from Cons.IH [OF \<open>name \<in> set ns\<close>, of acc']
    obtain before missing after where *:
      "ns = before @ missing # after" "\<not> suffix ''.json'' missing"
      "json_files fs (os_path_join pb missing @ ''.json'') = None"
      "\<forall>m \<in> set (blob_names before). json_files fs (os_path_join pb m @ ''.json'') \<noteq> None"
      "listdir_loop fs ex pl A pb ns acc' =
               Inl (ConanException (''Missing metadata file for backup source ''
                                     @ os_path_join pb missing))"
      by blast
    have "n # ns = (n # before) @ missing # after
           \<and> \<not> suffix ''.json'' missing
           \<and> json_files fs (os_path_join pb missing @ ''.json'') = None
           \<and> (\<forall>m \<in> set (blob_names (n # before)). json_files fs (os_path_join pb m @ ''.json'') \<noteq> None)
           \<and> listdir_loop fs ex pl A pb (n # ns) acc =
               Inl (ConanException (''Missing metadata file for backup source ''
                                     @ os_path_join pb missing))"
      using * False step by (auto simp: blob_names_def)
    then show ?thesis by blast
  qed
qed

lemma listdir_loop_blob_names:
  "listdir_loop fs ex pl A pb names acc = listdir_loop fs ex pl A pb (blob_names names) acc"
  by (induction names arbitrary: acc)
     (auto simp: blob_names_def endswith_suffix Let_def split: option.splits)

lemma listdir_loop_json_files:
  "json_files fs = json_files fs' \<Longrightarrow>
     listdir_loop fs ex pl A pb names acc = listdir_loop fs' ex pl A pb names acc"
  by (induction names arbitrary: acc) (auto simp: Let_def split: option.splits)


lemmas example_simps =
  example_fs_def example_package_list_def get_backup_sources_files_to_upload_def
  os_path_join_def endswith_def excluded_urls_or_empty_def all_refs_of_def
  has_excluded_urls_def should_upload_sources_def blob_names_def suffix_to_prefix Let_def

section \<open>Properties of \<^verbatim>\<open>get_backup_sources_files_to_upload\<close>\<close>

text \<open>
  Claim C3. \<^verbatim>\<open>has_excluded_urls\<close> holds of a URL list exactly when every URL of it starts
  with some excluded prefix, so it holds of the empty list. When every blob of the folder
  has its sidecar, the result lists, blob by blob in enumeration order, the sidecar path
  and the blob path once for a blob with a key that is not all-excluded and passes the
  selection filter, and nothing for any other blob. The inner loop stops at a qualifying
  key: the keys after it have no effect on what the blob adds.
\<close>

theorem get_backup_sources_files_to_upload_excluded:
  assumes "listdir fs (os_path_join cache_path ''s'') = Some names"
      and "\<forall>name \<in> set (blob_names names).
             json_files fs (os_path_join (os_path_join cache_path ''s'') name @ ''.json'') \<noteq> None"
  shows "has_excluded_urls ex urls = (\<forall>url \<in> set urls. \<exists>p \<in> set ex. prefix p url)
         \<and> has_excluded_urls ex []
         \<and> get_backup_sources_files_to_upload cache_path fs excluded_urls package_list =
             Inr (concat (map (upload_pair fs (os_path_join cache_path ''s'')
                    (\<lambda>(key, urls). \<not> all_excluded (excluded_urls_or_empty excluded_urls) urls
                                     \<and> (package_list = None \<or> key \<in> all_refs_of package_list)))
                    (blob_names names)))
         \<and> (\<not> all_excluded ex urls \<and> (package_list = None \<or> key \<in> A) \<longrightarrow>
              refs_loop ex package_list A metadata_path blob_path (before @ (key, urls) # rest)
                files_to_upload
              = files_to_upload @ [metadata_path, blob_path])"
proof (intro conjI impI)
  show "has_excluded_urls ex urls = (\<forall>url \<in> set urls. \<exists>p \<in> set ex. prefix p url)"
    by (simp add: has_excluded_urls_all_excluded all_excluded_def)
  show "has_excluded_urls ex []"
    by (simp add: has_excluded_urls_def)
  show "get_backup_sources_files_to_upload cache_path fs excluded_urls package_list =
             Inr (concat (map (upload_pair fs (os_path_join cache_path ''s'')
                    (\<lambda>(key, urls). \<not> all_excluded (excluded_urls_or_empty excluded_urls) urls
                                     \<and> (package_list = None \<or> key \<in> all_refs_of package_list)))
                    (blob_names names)))"
    using get_backup_sources_files_to_upload_eq [OF assms]
    by (simp add: has_excluded_urls_all_excluded)
next
  assume "\<not> all_excluded ex urls \<and> (package_list = None \<or> key \<in> A)"
  then have "\<exists>(key, urls) \<in> set (before @ (key, urls) # rest).
               \<not> has_excluded_urls ex urls \<and> (package_list = None \<or> key \<in> A)"
    by (auto simp: has_excluded_urls_all_excluded)
  then show "refs_loop ex package_list A metadata_path blob_path (before @ (key, urls) # rest)
                files_to_upload
              = files_to_upload @ [metadata_path, blob_path]"
    by (simp only: refs_loop_eq if_True)
qed

theorem get_backup_sources_files_to_upload_excluded_witness:
  "listdir example_fs (os_path_join ''/c'' ''s'')
     = Some [''f00'', ''f00.json'', ''orphan.json'', ''f01.json'', ''f01'']
   \<and> blob_names [''f00'', ''f00.json'', ''orphan.json'', ''f01.json'', ''f01''] = [''f00'', ''f01'']
   \<and> json_files example_fs ''/c/s/f00.json'' \<noteq> None
   \<and> json_files example_fs ''/c/s/f01.json'' \<noteq> None
   \<and> has_excluded_urls [''http://y/''] [''http://y/b'']
   \<and> \<not> has_excluded_urls [''http://y/''] [''http://x/a'']
   \<and> get_backup_sources_files_to_upload ''/c'' example_fs (Some [''http://y/'']) None
       = Inr [''/c/s/f00.json'', ''/c/s/f00'']"
  using get_backup_sources_files_to_upload_excluded
          [of example_fs "''/c''" "[''f00'', ''f00.json'', ''orphan.json'', ''f01.json'', ''f01'']"
              "[''http://y/'']" "[''http://y/b'']" "Some [''http://y/'']" None]
  by (simp add: example_simps)


text \<open>
  Claim C4. With a package list, \<^verbatim>\<open>all_refs\<close> is exactly the set of eligible keys, and a
  blob is selected exactly when its sidecar has a key in that set whose URLs are not all
  excluded; a key outside the set, such as \<^verbatim>\<open>"unknown"\<close> (never the text of a reference
  of the list), selects nothing. Without a package list every key whose URLs are not all
  excluded selects its blob.
\<close>

theorem get_backup_sources_files_to_upload_package_list:
  assumes "listdir fs (os_path_join cache_path ''s'') = Some names"
      and "\<forall>name \<in> set (blob_names names).
             json_files fs (os_path_join (os_path_join cache_path ''s'') name @ ''.json'') \<noteq> None"
  shows "all_refs_of (Some pl) = eligible_keys pl
         \<and> get_backup_sources_files_to_upload cache_path fs excluded_urls (Some pl) =
             Inr (concat (map (upload_pair fs (os_path_join cache_path ''s'')
                    (\<lambda>(key, urls). key \<in> eligible_keys pl
                       \<and> \<not> has_excluded_urls (excluded_urls_or_empty excluded_urls) urls))
                    (blob_names names)))
         \<and> get_backup_sources_files_to_upload cache_path fs excluded_urls None =
             Inr (concat (map (upload_pair fs (os_path_join cache_path ''s'')
                    (\<lambda>(key, urls).
                       \<not> has_excluded_urls (excluded_urls_or_empty excluded_urls) urls))
                    (blob_names names)))
         \<and> (''unknown'' \<notin> fst ` set pl \<longrightarrow> ''unknown'' \<notin> eligible_keys pl)"
proof (intro conjI impI)
  show "all_refs_of (Some pl) = eligible_keys pl"
    by (rule all_refs_of_Some)
  have "(\<lambda>(key, urls). \<not> has_excluded_urls (excluded_urls_or_empty excluded_urls) urls
                                   \<and> (Some pl = None \<or> key \<in> all_refs_of (Some pl)))
        = (\<lambda>(key, urls). key \<in> eligible_keys pl
                       \<and> \<not> has_excluded_urls (excluded_urls_or_empty excluded_urls) urls)"
    by (auto simp: all_refs_of_Some)
  then show "get_backup_sources_files_to_upload cache_path fs excluded_urls (Some pl) =
             Inr (concat (map (upload_pair fs (os_path_join cache_path ''s'')
                    (\<lambda>(key, urls). key \<in> eligible_keys pl
                       \<and> \<not> has_excluded_urls (excluded_urls_or_empty excluded_urls) urls))
                    (blob_names names)))"
    using get_backup_sources_files_to_upload_eq [OF assms, of excluded_urls "Some pl"]
    by simp
  show "get_backup_sources_files_to_upload cache_path fs excluded_urls None =
             Inr (concat (map (upload_pair fs (os_path_join cache_path ''s'')
                    (\<lambda>(key, urls).
                       \<not> has_excluded_urls (excluded_urls_or_empty excluded_urls) urls))
                    (blob_names names)))"
    using get_backup_sources_files_to_upload_eq [OF assms, of excluded_urls None]
    by simp
next
  assume "''unknown'' \<notin> fst ` set pl"
  then show "''unknown'' \<notin> eligible_keys pl"
    by (auto simp: eligible_keys_def)
qed

theorem get_backup_sources_files_to_upload_package_list_witness:
  "listdir example_fs (os_path_join ''/c'' ''s'')
     = Some [''f00'', ''f00.json'', ''orphan.json'', ''f01.json'', ''f01'']
   \<and> json_files example_fs ''/c/s/f00.json'' \<noteq> None
   \<and> json_files example_fs ''/c/s/f01.json'' \<noteq> None
   \<and> ''unknown'' \<notin> fst ` set example_package_list
   \<and> ''unknown'' \<notin> eligible_keys example_package_list
   \<and> all_refs_of (Some example_package_list) = {''pkg/1.0''}
   \<and> get_backup_sources_files_to_upload ''/c'' example_fs None (Some example_package_list)
       = Inr [''/c/s/f00.json'', ''/c/s/f00'']
   \<and> get_backup_sources_files_to_upload ''/c'' example_fs None None
       = Inr [''/c/s/f00.json'', ''/c/s/f00'', ''/c/s/f01.json'', ''/c/s/f01'']"
proof -
  have dir: "listdir example_fs (os_path_join ''/c'' ''s'')
     = Some [''f00'', ''f00.json'', ''orphan.json'', ''f01.json'', ''f01'']"
    by (simp add: example_simps)
  have sidecars: "\<forall>name \<in> set (blob_names [''f00'', ''f00.json'', ''orphan.json'', ''f01.json'', ''f01'']).
      json_files example_fs (os_path_join (os_path_join ''/c'' ''s'') name @ ''.json'') \<noteq> None"
    by (simp add: example_simps)
  have run: "json_files example_fs ''/c/s/f00.json'' \<noteq> None
   \<and> json_files example_fs ''/c/s/f01.json'' \<noteq> None
   \<and> ''unknown'' \<notin> fst ` set example_package_list
   \<and> all_refs_of (Some example_package_list) = {''pkg/1.0''}
   \<and> get_backup_sources_files_to_upload ''/c'' example_fs None (Some example_package_list)
       = Inr [''/c/s/f00.json'', ''/c/s/f00'']
   \<and> get_backup_sources_files_to_upload ''/c'' example_fs None None
       = Inr [''/c/s/f00.json'', ''/c/s/f00'', ''/c/s/f01.json'', ''/c/s/f01'']"
    by (simp add: example_simps)
  from get_backup_sources_files_to_upload_package_list
         [OF dir sidecars, of example_package_list None]
  have "''unknown'' \<notin> eligible_keys example_package_list"
    using run by blast
  with dir run show ?thesis by blast
qed

text \<open>
  Claim C5. When some blob of the folder has no sidecar, the call raises instead of
  returning a list: the error is "Missing metadata file for backup source" followed by
  the path of the first such blob in enumeration order, whatever the blobs before it
  would have contributed.
\<close>

theorem get_backup_sources_files_to_upload_missing_metadata:
  assumes "listdir fs (os_path_join cache_path ''s'') = Some names"
      and "name \<in> set (blob_names names)"
      and "json_files fs (os_path_join (os_path_join cache_path ''s'') name @ ''.json'') = None"
  shows "\<exists>before missing after.
           names = before @ missing # after
           \<and> \<not> suffix ''.json'' missing
           \<and> json_files fs (os_path_join (os_path_join cache_path ''s'') missing @ ''.json'') = None
           \<and> (\<forall>n \<in> set (blob_names before).
                 json_files fs (os_path_join (os_path_join cache_path ''s'') n @ ''.json'') \<noteq> None)
           \<and> get_backup_sources_files_to_upload cache_path fs excluded_urls package_list =
               Inl (ConanException (''Missing metadata file for backup source ''
                                     @ os_path_join (os_path_join cache_path ''s'') missing))"
proof -
  from assms(2) have "name \<in> set names" and "\<not> suffix ''.json'' name"
    by (simp_all add: blob_names_def)
  from listdir_loop_missing [OF this assms(3)] show ?thesis
    using assms(1) by (simp add: get_backup_sources_files_to_upload_def Let_def)
qed

theorem get_backup_sources_files_to_upload_missing_metadata_witness:
  "listdir (example_fs\<lparr>listdir := [''/c/s'' \<mapsto> [''f00'', ''f00.json'', ''f02'', ''f01'']]\<rparr>)
       (os_path_join ''/c'' ''s'')
     = Some [''f00'', ''f00.json'', ''f02'', ''f01'']
   \<and> ''f02'' \<in> set (blob_names [''f00'', ''f00.json'', ''f02'', ''f01''])
   \<and> json_files (example_fs\<lparr>listdir := [''/c/s'' \<mapsto> [''f00'', ''f00.json'', ''f02'', ''f01'']]\<rparr>)
         ''/c/s/f02.json'' = None
   \<and> get_backup_sources_files_to_upload ''/c''
         (example_fs\<lparr>listdir := [''/c/s'' \<mapsto> [''f00'', ''f00.json'', ''f02'', ''f01'']]\<rparr>)
         None None
       = Inl (ConanException ''Missing metadata file for backup source /c/s/f02'')"
  using get_backup_sources_files_to_upload_missing_metadata
          [of "example_fs\<lparr>listdir := [''/c/s'' \<mapsto> [''f00'', ''f00.json'', ''f02'', ''f01'']]\<rparr>"
              "''/c''" "[''f00'', ''f00.json'', ''f02'', ''f01'']" "''f02''" None None]
  by (simp add: example_simps)

text \<open>
  Claim C9. Sidecars without blob are ignored: the result is the one obtained for the
  listing without its \<^verbatim>\<open>.json\<close> entries, and a folder that holds \<^verbatim>\<open>.json\<close> entries
  only gives the empty list and no error.
\<close>

theorem get_backup_sources_files_to_upload_orphan_sidecars:
  assumes "listdir fs (os_path_join cache_path ''s'') = Some names"
  shows "get_backup_sources_files_to_upload cache_path fs excluded_urls package_list =
           get_backup_sources_files_to_upload cache_path
             (fs\<lparr>listdir := (listdir fs)(os_path_join cache_path ''s'' \<mapsto> blob_names names)\<rparr>)
             excluded_urls package_list
         \<and> ((\<forall>name \<in> set names. suffix ''.json'' name) \<longrightarrow>
              get_backup_sources_files_to_upload cache_path fs excluded_urls package_list = Inr [])"
proof (intro conjI impI)
  show "get_backup_sources_files_to_upload cache_path fs excluded_urls package_list =
           get_backup_sources_files_to_upload cache_path
             (fs\<lparr>listdir := (listdir fs)(os_path_join cache_path ''s'' \<mapsto> blob_names names)\<rparr>)
             excluded_urls package_list"
    using assms
      listdir_loop_blob_names [of fs _ package_list _ "os_path_join cache_path ''s''" names "[]"]
      listdir_loop_json_files [of fs "fs\<lparr>listdir := (listdir fs)(os_path_join cache_path ''s'' \<mapsto> blob_names names)\<rparr>"]
    by (simp add: get_backup_sources_files_to_upload_def Let_def)
next
  assume "\<forall>name \<in> set names. suffix ''.json'' name"
  then have "blob_names names = []"
    by (simp add: blob_names_def)
  then show "get_backup_sources_files_to_upload cache_path fs excluded_urls package_list = Inr []"
    using assms
      listdir_loop_blob_names [of fs _ package_list _ "os_path_join cache_path ''s''" names "[]"]
    by (simp add: get_backup_sources_files_to_upload_def Let_def)
qed


theorem get_backup_sources_files_to_upload_orphan_sidecars_witness:
  "listdir (example_fs\<lparr>listdir := [''/c/s'' \<mapsto> [''orphan.json'', ''f00.json'']]\<rparr>)
       (os_path_join ''/c'' ''s'')
     = Some [''orphan.json'', ''f00.json'']
   \<and> suffix ''.json'' ''orphan.json'' \<and> suffix ''.json'' ''f00.json''
   \<and> get_backup_sources_files_to_upload ''/c''
         (example_fs\<lparr>listdir := [''/c/s'' \<mapsto> [''orphan.json'', ''f00.json'']]\<rparr>) None None
       = Inr []"
  using get_backup_sources_files_to_upload_orphan_sidecars
          [of "example_fs\<lparr>listdir := [''/c/s'' \<mapsto> [''orphan.json'', ''f00.json'']]\<rparr>"
              "''/c''" "[''orphan.json'', ''f00.json'']" None None]
  by (simp add: example_simps)


end
